theory Spec2Isabelle
  imports Complex_Main "HOL-Library.Char_ord" "HOL-Library.List_Lexorder"
begin

section \<open>Data model\<close>

text \<open>
  The program (\<^verbatim>\<open>app2.py\<close>) works on one pandas DataFrame read from a spreadsheet.
  A DataFrame is modelled column by column, in the left-to-right order of
  \<^verbatim>\<open>df.columns\<close>: an association list from the column label to the column's data.
  The constructor of the data is the column's dtype: \<^verbatim>\<open>int64\<close> (no missing value),
  \<^verbatim>\<open>float64\<close> (\<open>None\<close> is NaN) and \<^verbatim>\<open>object\<close> holding text (\<open>None\<close> is a
  missing cell). Floating-point numbers are idealised as reals.

  A \<open>string\<close> stands for a Python \<^verbatim>\<open>str\<close> whose characters have code points below
  256, one \<open>char\<close> per character. The Chinese column labels of the source are
  written as their UTF-8 bytes; labels are only ever compared for equality. Column
  labels of a DataFrame are taken pairwise distinct, where \<open>map_of\<close> is the
  lookup \<^verbatim>\<open>df[label]\<close>.
\<close>

datatype column_data =
    IntCol "int list"
  | FloatCol "real option list"
  | ObjCol "string option list"

type_synonym dataframe = "(string \<times> column_data) list"

datatype py_error = KeyError | ValueError | TypeError | AttributeError

text \<open>The label of the identifier column (line 31, Chinese for "stock code").\<close>

definition stock_code :: string where
  "stock_code = [CHR 0xE8, CHR 0x82, CHR 0xA1, CHR 0xE7, CHR 0xA5, CHR 0xA8,
                 CHR 0xE4, CHR 0xBB, CHR 0xA3, CHR 0xE7, CHR 0xA0, CHR 0x81]"

text \<open>The label of the name column (line 142, Chinese for "company name").\<close>

definition company_name :: string where
  "company_name = [CHR 0xE4, CHR 0xBC, CHR 0x81, CHR 0xE4, CHR 0xB8, CHR 0x9A,
                   CHR 0xE5, CHR 0x90, CHR 0x8D, CHR 0xE7, CHR 0xA7, CHR 0xB0]"

text \<open>
  The list \<^verbatim>\<open>industry_candidates\<close> of line 52: three Chinese labels ("industry",
  "affiliated industry", "industry classification"), then \<^verbatim>\<open>'industry'\<close> and
  \<^verbatim>\<open>'Industry'\<close>.
\<close>

definition industry_candidates :: "string list" where
  "industry_candidates =
     [[CHR 0xE8, CHR 0xA1, CHR 0x8C, CHR 0xE4, CHR 0xB8, CHR 0x9A],
      [CHR 0xE6, CHR 0x89, CHR 0x80, CHR 0xE5, CHR 0xB1, CHR 0x9E,
       CHR 0xE8, CHR 0xA1, CHR 0x8C, CHR 0xE4, CHR 0xB8, CHR 0x9A],
      [CHR 0xE8, CHR 0xA1, CHR 0x8C, CHR 0xE4, CHR 0xB8, CHR 0x9A,
       CHR 0xE5, CHR 0x88, CHR 0x86, CHR 0xE7, CHR 0xB1, CHR 0xBB],
      ''industry'', ''Industry'']"

text \<open>The values of an \<open>option\<close> list that are present, in order.\<close>

primrec present :: "'a option list \<Rightarrow> 'a list" where
  "present [] = []"
| "present (x # xs) = (case x of None \<Rightarrow> present xs | Some v \<Rightarrow> v # present xs)"

text \<open>Boolean indexing \<^verbatim>\<open>s[mask]\<close>: the entries at which the mask is true.\<close>

fun select :: "bool list \<Rightarrow> 'a list \<Rightarrow> 'a list" where
  "select (b # bs) (x # xs) = (if b then x # select bs xs else select bs xs)"
| "select _ _ = []"

primrec mask_data :: "bool list \<Rightarrow> column_data \<Rightarrow> column_data" where
  "mask_data m (IntCol xs) = IntCol (select m xs)"
| "mask_data m (FloatCol xs) = FloatCol (select m xs)"
| "mask_data m (ObjCol xs) = ObjCol (select m xs)"

text \<open>\<^verbatim>\<open>df[mask]\<close>: the rows at which the mask is true, every column kept.\<close>

definition mask_rows :: "bool list \<Rightarrow> dataframe \<Rightarrow> dataframe" where
  "mask_rows m df = map (\<lambda>(label, d). (label, mask_data m d)) df"

section \<open>Column classification (lines 51-61)\<close>

text \<open>
  \<^verbatim>\<open>for col in industry_candidates: if col in df.columns: industry_column = col; break\<close>
\<close>

definition industry_column :: "dataframe \<Rightarrow> string option" where
  "industry_column df = find (\<lambda>col. col \<in> set (map fst df)) industry_candidates"

text \<open>\<^verbatim>\<open>df.select_dtypes(include=['float64', 'int64'])\<close> keeps these columns.\<close>

primrec is_numeric :: "column_data \<Rightarrow> bool" where
  "is_numeric (IntCol xs) = True"
| "is_numeric (FloatCol xs) = True"
| "is_numeric (ObjCol xs) = False"

definition select_dtypes :: "dataframe \<Rightarrow> dataframe" where
  "select_dtypes df = filter (\<lambda>(label, d). is_numeric d) df"

text \<open>
  Lines 59-61. Python's \<^verbatim>\<open>list.remove\<close> deletes the first occurrence only, which
  is \<open>remove1\<close>.
\<close>

definition numeric_columns :: "dataframe \<Rightarrow> string list" where
  "numeric_columns df =
     (let cols = map fst (select_dtypes df)
      in if stock_code \<in> set cols then remove1 stock_code cols else cols)"

section \<open>Python strings and integers\<close>

text \<open>The characters below 256 for which \<^verbatim>\<open>str.isspace\<close> holds.\<close>

definition whitespace :: string where
  "whitespace = [CHR 0x09, CHR 0x0A, CHR 0x0B, CHR 0x0C, CHR 0x0D, CHR 0x1C, CHR 0x1D,
                 CHR 0x1E, CHR 0x1F, CHR 0x20, CHR 0x85, CHR 0xA0]"

text \<open>\<^verbatim>\<open>s.strip()\<close>\<close>

definition py_strip :: "string \<Rightarrow> string" where
  "py_strip s =
     rev (dropWhile (\<lambda>c. c \<in> set whitespace)
       (rev (dropWhile (\<lambda>c. c \<in> set whitespace) s)))"

definition digit_val :: "char \<Rightarrow> nat option" where
  "digit_val = map_of
     [(CHR ''0'', 0), (CHR ''1'', 1), (CHR ''2'', 2), (CHR ''3'', 3), (CHR ''4'', 4),
      (CHR ''5'', 5), (CHR ''6'', 6), (CHR ''7'', 7), (CHR ''8'', 8), (CHR ''9'', 9)]"

text \<open>
  The digits of \<^verbatim>\<open>int(s)\<close> after the first one: decimal digits, with single
  underscores allowed between two digits. \<open>prev\<close> tells that the character before
  was an underscore.
\<close>

fun parse_digits :: "nat \<Rightarrow> bool \<Rightarrow> string \<Rightarrow> nat option" where
  "parse_digits acc prev [] = (if prev then None else Some acc)"
| "parse_digits acc prev (c # cs) =
     (if c = CHR ''_'' then (if prev then None else parse_digits acc True cs)
      else case digit_val c of
             None \<Rightarrow> None
           | Some d \<Rightarrow> parse_digits (10 * acc + d) False cs)"

definition parse_unsigned :: "string \<Rightarrow> nat option" where
  "parse_unsigned s =
     (case s of
        [] \<Rightarrow> None
      | c # cs \<Rightarrow> (case digit_val c of None \<Rightarrow> None | Some d \<Rightarrow> parse_digits d False cs))"

text \<open>
  The characters below 256 that \<^verbatim>\<open>int\<close> skips at both ends of its argument. They
  are those of \<open>whitespace\<close> but the four separators 0x1C to 0x1F, which
  \<^verbatim>\<open>int\<close> rejects.
\<close>

definition int_whitespace :: string where
  "int_whitespace = [CHR 0x09, CHR 0x0A, CHR 0x0B, CHR 0x0C, CHR 0x0D, CHR 0x20, CHR 0x85,
                     CHR 0xA0]"

text \<open>
  \<^verbatim>\<open>int(s)\<close> in base ten: surrounding whitespace is dropped, then an optional sign and
  the digits; anything else raises \<^verbatim>\<open>ValueError\<close>. (The limit that recent
  interpreters put on the number of digits, which also raises \<^verbatim>\<open>ValueError\<close>, is
  left out.)
\<close>

definition py_int :: "string \<Rightarrow> py_error + int" where
  "py_int s =
     (case (case rev (dropWhile (\<lambda>c. c \<in> set int_whitespace)
                   (rev (dropWhile (\<lambda>c. c \<in> set int_whitespace) s))) of
              [] \<Rightarrow> None
            | c # cs \<Rightarrow>
                if c = CHR ''-'' then map_option (\<lambda>n. - int n) (parse_unsigned cs)
                else if c = CHR ''+'' then map_option int (parse_unsigned cs)
                else map_option int (parse_unsigned (c # cs))) of
        None \<Rightarrow> Inl ValueError
      | Some i \<Rightarrow> Inr i)"

definition digit_char :: "nat \<Rightarrow> char" where
  "digit_char d = ''0123456789'' ! d"

fun str_nat :: "nat \<Rightarrow> string" where
  "str_nat n = (if n < 10 then [digit_char n] else str_nat (n div 10) @ [digit_char (n mod 10)])"

declare str_nat.simps [simp del]

text \<open>\<^verbatim>\<open>str(i)\<close> of an integer: its decimal digits, with a minus sign when negative.\<close>

definition py_str :: "int \<Rightarrow> string" where
  "py_str i = (if i < 0 then CHR ''-'' # str_nat (nat (- i)) else str_nat (nat i))"

text \<open>
  The literal substring test, Python's \<^verbatim>\<open>q in s\<close>: the reading of "contains as a
  substring" that the specification gives to fuzzy matching.
\<close>

fun is_substring :: "string \<Rightarrow> string \<Rightarrow> bool" where
  "is_substring q [] = (q = [])"
| "is_substring q (c # s) = (take (length q) (c # s) = q \<or> is_substring q s)"

section \<open>Regular expressions\<close>

text \<open>
  \<^verbatim>\<open>Series.str.contains(pat)\<close> compiles \<^verbatim>\<open>pat\<close> as a regular expression
  (\<^verbatim>\<open>regex=True\<close> is the default) and tests each string with \<^verbatim>\<open>re.search\<close>. The
  fragment of the pattern language embedded here: a character that is not special
  matches itself, and \<^verbatim>\<open>.\<close> matches any character but the newline. A pattern with
  another special character is outside the fragment, and \<open>re_compile\<close> is \<open>None\<close> on it.
\<close>

definition re_special :: string where
  "re_special = ''.^$*+?{}[]|()'' @ [CHR 0x5C]"

datatype atom = Literal char | Any_char

fun re_compile :: "string \<Rightarrow> atom list option" where
  "re_compile [] = Some []"
| "re_compile (c # cs) =
     (if c = CHR ''.'' then map_option ((#) Any_char) (re_compile cs)
      else if c \<in> set re_special then None
      else map_option ((#) (Literal c)) (re_compile cs))"

fun atom_matches :: "atom \<Rightarrow> char \<Rightarrow> bool" where
  "atom_matches (Literal a) c = (a = c)"
| "atom_matches Any_char c = (c \<noteq> CHR 0x0A)"

text \<open>The pattern matches a prefix of the string.\<close>

fun match_here :: "atom list \<Rightarrow> string \<Rightarrow> bool" where
  "match_here [] s = True"
| "match_here (a # as) [] = False"
| "match_here (a # as) (c # s) = (atom_matches a c \<and> match_here as s)"

text \<open>\<^verbatim>\<open>re.search\<close>: the pattern matches at some position of the string.\<close>

fun re_search :: "atom list \<Rightarrow> string \<Rightarrow> bool" where
  "re_search p [] = match_here p []"
| "re_search p (c # s) = (match_here p (c # s) \<or> re_search p s)"

text \<open>
  \<^verbatim>\<open>s.str.contains(pat)\<close> on a series of strings, and \<^verbatim>\<open>s.str.contains(pat, na=False)\<close>
  on a series of text with missing cells, which gives \<^verbatim>\<open>False\<close> at a missing cell.
\<close>

definition str_contains :: "string \<Rightarrow> string list \<Rightarrow> bool list option" where
  "str_contains pat xs = map_option (\<lambda>p. map (re_search p) xs) (re_compile pat)"

definition str_contains_na_false :: "string \<Rightarrow> string option list \<Rightarrow> bool list option" where
  "str_contains_na_false pat xs =
     map_option (\<lambda>p. map (\<lambda>x. case x of None \<Rightarrow> False | Some s \<Rightarrow> re_search p s) xs)
       (re_compile pat)"

section \<open>Aggregation and reshaping (lines 203-228)\<close>

text \<open>\<^verbatim>\<open>pandas.unique\<close>: the distinct values in the order of their first appearance.\<close>

primrec unique :: "'a list \<Rightarrow> 'a list" where
  "unique [] = []"
| "unique (x # xs) = x # filter (\<lambda>y. y \<noteq> x) (unique xs)"

text \<open>
  The group keys of \<^verbatim>\<open>df.groupby(col)\<close>: rows with a missing key are dropped
  (\<^verbatim>\<open>dropna=True\<close>) and the keys are sorted (\<^verbatim>\<open>sort=True\<close>), both by default.
\<close>

definition group_keys :: "('k::linorder) option list \<Rightarrow> 'k list" where
  "group_keys ks = sort (unique (present ks))"

text \<open>\<^verbatim>\<open>mean()\<close> skips missing values, and is NaN when none is left.\<close>

definition mean :: "real option list \<Rightarrow> real option" where
  "mean xs =
     (case present xs of
        [] \<Rightarrow> None
      | v # vs \<Rightarrow> Some (sum_list (v # vs) / real (length (v # vs))))"

text \<open>One row per group key: the key, then the mean of every column over the group.\<close>

definition grouped_mean ::
  "('k::linorder) option list \<Rightarrow> real option list list \<Rightarrow> ('k \<times> real option list) list" where
  "grouped_mean ks cols =
     map (\<lambda>k. (k, map (\<lambda>vs. mean (select (map (\<lambda>x. x = Some k) ks) vs)) cols))
       (group_keys ks)"

primrec numeric_values :: "column_data \<Rightarrow> real option list option" where
  "numeric_values (IntCol xs) = Some (map (\<lambda>i. Some (of_int i)) xs)"
| "numeric_values (FloatCol xs) = Some xs"
| "numeric_values (ObjCol xs) = None"

datatype group_key = IntK int | FloatK real | StrK string

text \<open>
  Line 203:
  \<^verbatim>\<open>industry_data = df.groupby(industry_column)[selected_metrics].mean().reset_index()\<close>,
  as rows of the group key and the means of the selected metrics. A label that is no
  column raises \<^verbatim>\<open>KeyError\<close>, the mean of a text column \<^verbatim>\<open>TypeError\<close>, and
  \<^verbatim>\<open>reset_index\<close> raises \<^verbatim>\<open>ValueError\<close> when the grouping column is among the
  selected ones.
\<close>

definition industry_data ::
  "dataframe \<Rightarrow> string \<Rightarrow> string list \<Rightarrow> py_error + (group_key \<times> real option list) list" where
  "industry_data df industry_col selected_metrics =
     (case map_of df industry_col of
        None \<Rightarrow> Inl KeyError
      | Some kc \<Rightarrow>
          (case those (map (map_of df) selected_metrics) of
             None \<Rightarrow> Inl KeyError
           | Some cs \<Rightarrow>
               (case those (map numeric_values cs) of
                  None \<Rightarrow> Inl TypeError
                | Some cols \<Rightarrow>
                    if industry_col \<in> set selected_metrics then Inl ValueError
                    else Inr (case kc of
                        IntCol ks \<Rightarrow> map (apfst IntK) (grouped_mean (map Some ks) cols)
                      | FloatCol ks \<Rightarrow> map (apfst FloatK) (grouped_mean ks cols)
                      | ObjCol ks \<Rightarrow> map (apfst StrK) (grouped_mean ks cols)))))"

text \<open>
  The label that line 211 gives to the value column of the long form (Chinese for
  "mean value").
\<close>

definition value_name :: string where
  "value_name = [CHR 0xE5, CHR 0xB9, CHR 0xB3, CHR 0xE5, CHR 0x9D, CHR 0x87,
                 CHR 0xE5, CHR 0x80, CHR 0xBC]"

text \<open>
  The long records of a wide table: one record (key, metric, value) per row and value
  column; pandas emits them value column by value column, the rows in order within
  each.
\<close>

definition melt_rows :: "('k \<times> 'v list) list \<Rightarrow> string list \<Rightarrow> ('k \<times> string \<times> 'v) list" where
  "melt_rows wide value_vars =
     concat (map (\<lambda>(j, var). map (\<lambda>(k, vs). (k, var, vs ! j)) wide)
       (enumerate 0 value_vars))"

text \<open>
  Lines 206-212: \<^verbatim>\<open>pd.melt(industry_data, id_vars=[industry_column],
  value_vars=selected_metrics, var_name=..., value_name=...)\<close>. The columns of the
  wide frame are the grouping column and the selected metrics; \<^verbatim>\<open>pd.melt\<close> raises
  \<^verbatim>\<open>ValueError\<close> when \<^verbatim>\<open>value_name\<close> is one of them. The grouping column is one of
  \<open>industry_candidates\<close>, so it differs from both new labels.
\<close>

definition melt ::
  "string \<Rightarrow> ('k \<times> 'v list) list \<Rightarrow> string list \<Rightarrow> py_error + ('k \<times> string \<times> 'v) list" where
  "melt id_var wide value_vars =
     (if value_name \<in> set (id_var # value_vars) then Inl ValueError
      else Inr (melt_rows wide value_vars))"

text \<open>
  The reconstruction of the wide form that the specification describes: the long
  records are grouped by key, in the order in which the keys first appear, and the
  metric names become the columns again. A cell with no long record is missing.
\<close>

definition pivot :: "string list \<Rightarrow> ('k \<times> string \<times> 'v option) list \<Rightarrow> ('k \<times> 'v option list) list" where
  "pivot value_vars long =
     map (\<lambda>k. (k, map (\<lambda>var.
            case map_of (map (\<lambda>(k', var', v). ((k', var'), v)) long) (k, var) of
              None \<Rightarrow> None
            | Some v \<Rightarrow> v) value_vars))
       (unique (map fst long))"

text \<open>\<^verbatim>\<open>Series.min()\<close> and \<^verbatim>\<open>Series.max()\<close> skip missing values.\<close>

definition series_min :: "real option list \<Rightarrow> real option" where
  "series_min xs = (case present xs of [] \<Rightarrow> None | v # vs \<Rightarrow> Some (fold min vs v))"

definition series_max :: "real option list \<Rightarrow> real option" where
  "series_max xs = (case present xs of [] \<Rightarrow> None | v # vs \<Rightarrow> Some (fold max vs v))"

text \<open>
  Lines 227-228, the range of the radial axis, from the values of the long form:
  \<^verbatim>\<open>min_val = values.min() * 0.9\<close> and \<^verbatim>\<open>max_val = values.max() * 1.1\<close>.
\<close>

definition min_val :: "real option list \<Rightarrow> real option" where
  "min_val values = map_option (\<lambda>m. m * 0.9) (series_min values)"

definition max_val :: "real option list \<Rightarrow> real option" where
  "max_val values = map_option (\<lambda>m. m * 1.1) (series_max values)"

definition suggest_range :: "real option list \<Rightarrow> real option \<times> real option" where
  "suggest_range values = (min_val values, max_val values)"

section \<open>Lookup (lines 354-383)\<close>

datatype query_by = Stock_code | Company_name

datatype query_method = Exact_query | Fuzzy_query

text \<open>
  What the query button does: the warning for an empty query (line 356), the error
  message of \<^verbatim>\<open>except ValueError\<close> (line 379), the error for a missing name column
  (line 372), the error message of \<^verbatim>\<open>except Exception\<close> (line 382), or the frame
  \<^verbatim>\<open>matching_data\<close>, which may be empty. \<open>Outside_fragment\<close> stands for the cases
  that the embedding leaves out: a pattern outside the fragment of regular
  expressions above, and the text of a floating-point number.
\<close>

datatype outcome =
    Warn_empty_query
  | Error_not_integer
  | Error_no_name_column
  | Error_other py_error
  | Matches dataframe
  | Outside_fragment

text \<open>\<^verbatim>\<open>df[label] == code_int\<close> and \<^verbatim>\<open>df[label] == query_text\<close>, row by row.\<close>

primrec eq_int :: "column_data \<Rightarrow> int \<Rightarrow> bool list" where
  "eq_int (IntCol xs) n = map (\<lambda>x. x = n) xs"
| "eq_int (FloatCol xs) n = map (\<lambda>x. x = Some (of_int n)) xs"
| "eq_int (ObjCol xs) n = map (\<lambda>x. False) xs"

primrec eq_str :: "column_data \<Rightarrow> string \<Rightarrow> bool list" where
  "eq_str (IntCol xs) q = map (\<lambda>x. False) xs"
| "eq_str (FloatCol xs) q = map (\<lambda>x. False) xs"
| "eq_str (ObjCol xs) q = map (\<lambda>x. x = Some q) xs"

text \<open>
  \<^verbatim>\<open>astype(str)\<close>: the decimal text of an integer; a text cell as it is, a missing
  one as \<^verbatim>\<open>'nan'\<close>. The text of a floating-point number is not modelled.
\<close>

primrec astype_str :: "column_data \<Rightarrow> string list option" where
  "astype_str (IntCol xs) = Some (map py_str xs)"
| "astype_str (FloatCol xs) = None"
| "astype_str (ObjCol xs) = Some (map (\<lambda>x. case x of None \<Rightarrow> ''nan'' | Some s \<Rightarrow> s) xs)"

text \<open>
  The \<^verbatim>\<open>.str\<close> accessor raises \<^verbatim>\<open>AttributeError\<close> on a column that is not text.
\<close>

primrec str_accessor :: "column_data \<Rightarrow> py_error + string option list" where
  "str_accessor (IntCol xs) = Inl AttributeError"
| "str_accessor (FloatCol xs) = Inl AttributeError"
| "str_accessor (ObjCol xs) = Inr xs"

definition matching_data :: "dataframe \<Rightarrow> string \<Rightarrow> query_by \<Rightarrow> query_method \<Rightarrow> outcome" where
  "matching_data df text_input field mode =
     (if py_strip text_input = [] then Warn_empty_query
      else
        let query_text = py_strip text_input in
        case field of
          Stock_code \<Rightarrow>
            (case mode of
               Exact_query \<Rightarrow>
                 (case py_int query_text of
                    Inl e \<Rightarrow> Error_not_integer
                  | Inr code_int \<Rightarrow>
                      (case map_of df stock_code of
                         None \<Rightarrow> Error_other KeyError
                       | Some col \<Rightarrow> Matches (mask_rows (eq_int col code_int) df)))
             | Fuzzy_query \<Rightarrow>
                 (case map_of df stock_code of
                    None \<Rightarrow> Error_other KeyError
                  | Some col \<Rightarrow>
                      (case astype_str col of
                         None \<Rightarrow> Outside_fragment
                       | Some strs \<Rightarrow>
                           (case str_contains query_text strs of
                              None \<Rightarrow> Outside_fragment
                            | Some m \<Rightarrow> Matches (mask_rows m df)))))
        | Company_name \<Rightarrow>
            if company_name \<notin> set (map fst df) then Error_no_name_column
            else
              (case mode of
                 Exact_query \<Rightarrow>
                   (case map_of df company_name of
                      None \<Rightarrow> Error_other KeyError
                    | Some col \<Rightarrow> Matches (mask_rows (eq_str col query_text) df))
               | Fuzzy_query \<Rightarrow>
                   (case map_of df company_name of
                      None \<Rightarrow> Error_other KeyError
                    | Some col \<Rightarrow>
                        (case str_accessor col of
                           Inl e \<Rightarrow> Error_other e
                         | Inr names \<Rightarrow>
                             (case str_contains_na_false query_text names of
                                None \<Rightarrow> Outside_fragment
                              | Some m \<Rightarrow> Matches (mask_rows m df))))))"

section \<open>Properties of the classification\<close>

lemma remove1_absent: "x \<notin> set xs \<Longrightarrow> remove1 x xs = xs"
  by (induction xs) auto

lemma numeric_columns_remove1:
  "numeric_columns df = remove1 stock_code (map fst (select_dtypes df))"
  by (simp add: numeric_columns_def Let_def remove1_absent)

lemma distinct_select_dtypes:
  "distinct (map fst df) \<Longrightarrow> distinct (map fst (select_dtypes df))"
  by (simp add: select_dtypes_def distinct_map_filter)

lemma remove1_filter_distinct:
  "distinct xs \<Longrightarrow> remove1 x xs = filter (\<lambda>y. y \<noteq> x) xs"
  by (induction xs) (auto simp: remove1_absent filter_id_conv)

text \<open>
  Claim C8: with pairwise distinct column labels, the metric columns are the labels of the
  int64 and float64 columns, in their left-to-right order, without the identifier
  column's label; the identifier column is never among them.
\<close>

theorem numeric_columns_without_identifier:
  assumes "distinct (map fst df)"
  shows "numeric_columns df =
           filter (\<lambda>label. label \<noteq> stock_code)
             (map fst (filter (\<lambda>(label, d). is_numeric d) df))
         \<and> stock_code \<notin> set (numeric_columns df)"
proof -
  have d: "distinct (map fst (select_dtypes df))"
    using assms by (rule distinct_select_dtypes)
  have "numeric_columns df =
          filter (\<lambda>label. label \<noteq> stock_code) (map fst (select_dtypes df))"
    by (simp add: numeric_columns_remove1 remove1_filter_distinct [OF d])
  then show ?thesis
    by (simp add: select_dtypes_def)
qed

text \<open>
  The identifier column is numeric and stands between a text column and two metric
  columns: it alone is dropped, and the order of the others is kept.
\<close>

theorem numeric_columns_without_identifier_witness:
  "distinct (map fst
      [(company_name, ObjCol [Some ''iFlytek'', None]),
       (''revenue'', FloatCol [Some 2.5, None]),
       (stock_code, IntCol [300884, 2230]),
       (''staff'', IntCol [120, 75])])
   \<and> numeric_columns
      [(company_name, ObjCol [Some ''iFlytek'', None]),
       (''revenue'', FloatCol [Some 2.5, None]),
       (stock_code, IntCol [300884, 2230]),
       (''staff'', IntCol [120, 75])] = [''revenue'', ''staff'']"
proof -
  have h: "distinct (map fst
      [(company_name, ObjCol [Some ''iFlytek'', None]),
       (''revenue'', FloatCol [Some 2.5, None]),
       (stock_code, IntCol [300884, 2230]),
       (''staff'', IntCol [120, 75])])"
    by (simp add: company_name_def stock_code_def)
  show ?thesis
    using h numeric_columns_without_identifier [OF h]
    by (simp add: company_name_def stock_code_def)
qed

text \<open>
  Distinct labels are needed. When the identifier label stands on two numeric columns,
  \<^verbatim>\<open>list.remove\<close> drops the first occurrence and the second one stays.
\<close>

lemma numeric_columns_duplicated_label:
  "numeric_columns [(stock_code, IntCol [0, 1]), (stock_code, IntCol [300884, 2230])]
     = [stock_code]"
  by (simp add: numeric_columns_def select_dtypes_def)

section \<open>Range of the radial axis\<close>

lemma present_map_Some: "present (map Some vs) = vs"
  by (induction vs) auto

lemma series_min_Some: "vs \<noteq> [] \<Longrightarrow> series_min (map Some vs) = Some (Min (set vs))"
proof (cases vs)
  case Nil
  assume "vs \<noteq> []"
  with Nil show ?thesis by simp
next
  case (Cons v ws)
  have "fold min ws v = Min (set (v # ws))"
    by (rule Min.set_eq_fold [symmetric])
  with Cons show ?thesis
    by (simp add: series_min_def present_map_Some del: set_simps)
qed

lemma series_max_Some: "vs \<noteq> [] \<Longrightarrow> series_max (map Some vs) = Some (Max (set vs))"
proof (cases vs)
  case Nil
  assume "vs \<noteq> []"
  with Nil show ?thesis by simp
next
  case (Cons v ws)
  have "fold max ws v = Max (set (v # ws))"
    by (rule Max.set_eq_fold [symmetric])
  with Cons show ?thesis
    by (simp add: series_max_def present_map_Some del: set_simps)
qed

text \<open>
  Claim C2, as the code has it: for every non-empty list of values the range is
  \<open>(min * 0.9, max * 1.1)\<close>, whatever the sign of the minimum. Lines 227-228 multiply
  both ends and test no sign.
\<close>

theorem suggest_range_pads_both_bounds:
  assumes "vs \<noteq> []"
  shows "suggest_range (map Some vs) = (Some (Min (set vs) * 0.9), Some (Max (set vs) * 1.1))"
  using assms
  by (simp add: suggest_range_def min_val_def max_val_def series_min_Some series_max_Some)

theorem suggest_range_pads_both_bounds_witness:
  "[10, 20, 30] \<noteq> ([] :: real list)
   \<and> suggest_range (map Some [10, 20, 30]) = (Some 9, Some 33)"
proof -
  have h: "[10, 20, 30] \<noteq> ([] :: real list)" by simp
  show ?thesis
    using suggest_range_pads_both_bounds [OF h] by simp
qed

text \<open>
  For \<open>[-5, 10]\<close> the lower bound is \<open>-4.5\<close>: the negative minimum is padded as
  well, towards zero, and is not returned as it is.
\<close>

theorem suggest_range_negative_minimum_counterexample:
  "suggest_range [Some (- 5), Some 10] = (Some (- 4.5), Some 11)
   \<and> suggest_range [Some (- 5), Some 10] \<noteq> (Some (- 5), Some 11)"
  by (simp add: suggest_range_def min_val_def max_val_def series_min_def series_max_def)

section \<open>Groups and their order\<close>

lemma set_unique: "set (unique xs) = set xs"
  by (induction xs) auto

lemma distinct_unique: "distinct (unique xs)"
  by (induction xs) auto

lemma unique_distinct: "distinct xs \<Longrightarrow> unique xs = xs"
proof (induction xs)
  case Nil
  then show ?case by simp
next
  case (Cons x xs)
  then have "filter (\<lambda>y. y \<noteq> x) xs = xs"
    by (auto simp: filter_id_conv)
  with Cons show ?case by simp
qed

lemma unique_append:
  "unique (xs @ ys) = unique xs @ filter (\<lambda>y. y \<notin> set xs) (unique ys)"
proof (induction xs)
  case Nil
  then show ?case by simp
next
  case (Cons x xs)
  have "filter (\<lambda>y. y \<noteq> x) (filter (\<lambda>y. y \<notin> set xs) (unique ys))
        = filter (\<lambda>y. y \<notin> set (x # xs)) (unique ys)"
    by (auto intro: filter_cong)
  with Cons show ?case by simp
qed

lemma unique_absorb:
  assumes "distinct xs" and "set ys \<subseteq> set xs"
  shows "unique (xs @ ys) = xs"
proof -
  have "filter (\<lambda>y. y \<notin> set xs) (unique ys) = []"
    using assms(2) by (auto simp: filter_empty_conv set_unique)
  with assms(1) show ?thesis
    by (simp add: unique_append unique_distinct)
qed

lemma set_present: "set (present xs) = {v. Some v \<in> set xs}"
  by (induction xs) (auto split: option.splits)

lemma group_keys_sorted: "sorted (group_keys ks)"
  by (simp add: group_keys_def)

lemma group_keys_distinct: "distinct (group_keys ks)"
  by (simp add: group_keys_def distinct_unique)

lemma group_keys_set: "set (group_keys ks) = {k. Some k \<in> set ks}"
  by (simp add: group_keys_def set_unique set_present)

lemma grouped_mean_keys: "map fst (grouped_mean ks cols) = group_keys ks"
  by (simp add: grouped_mean_def comp_def)

lemma grouped_mean_width:
  "row \<in> set (grouped_mean ks cols) \<Longrightarrow> length (snd row) = length cols"
  by (auto simp: grouped_mean_def)

text \<open>
  Claim C3, as the code has it: with a text grouping column, the groups of
  \<open>industry_data\<close> come in ascending order of the grouping value, every value that
  occurs once and no other. \<^verbatim>\<open>groupby\<close> is called without \<^verbatim>\<open>sort=False\<close>.
\<close>

theorem industry_groups_in_sorted_order:
  assumes "map_of df industry_col = Some (ObjCol ks)"
    and "industry_data df industry_col selected_metrics = Inr wide"
  shows "\<exists>keys. map fst wide = map StrK keys \<and> sorted keys \<and> distinct keys
           \<and> set keys = {k. Some k \<in> set ks}"
proof -
  from assms obtain cols where "wide = map (apfst StrK) (grouped_mean ks cols)"
    by (auto simp: industry_data_def split: option.splits if_splits)
  then have "map fst wide = map StrK (map fst (grouped_mean ks cols))"
    by simp
  then have "map fst wide = map StrK (group_keys ks)"
    by (simp only: grouped_mean_keys)
  then show ?thesis
    using group_keys_sorted group_keys_distinct group_keys_set by blast
qed

theorem industry_groups_in_sorted_order_witness:
  "map_of
     [(''industry'', ObjCol [Some ''software'', Some ''hardware'', None, Some ''software'']),
      (''score'', FloatCol [Some 1, Some 2, Some 7, Some 4])]
     ''industry''
   = Some (ObjCol [Some ''software'', Some ''hardware'', None, Some ''software''])
   \<and> industry_data
     [(''industry'', ObjCol [Some ''software'', Some ''hardware'', None, Some ''software'']),
      (''score'', FloatCol [Some 1, Some 2, Some 7, Some 4])]
     ''industry'' [''score'']
   = Inr [(StrK ''hardware'', [Some 2]), (StrK ''software'', [Some (5 / 2)])]
   \<and> (\<exists>keys. map fst [(StrK ''hardware'', [Some (2::real)]), (StrK ''software'', [Some (5 / 2)])]
          = map StrK keys \<and> sorted keys \<and> distinct keys
        \<and> set keys = {k. Some k \<in> set [Some ''software'', Some ''hardware'', None, Some ''software'']})"
proof -
  have h1: "map_of
     [(''industry'', ObjCol [Some ''software'', Some ''hardware'', None, Some ''software'']),
      (''score'', FloatCol [Some 1, Some 2, Some 7, Some 4])]
     ''industry''
   = Some (ObjCol [Some ''software'', Some ''hardware'', None, Some ''software''])"
    by simp
  have h2: "industry_data
     [(''industry'', ObjCol [Some ''software'', Some ''hardware'', None, Some ''software'']),
      (''score'', FloatCol [Some 1, Some 2, Some 7, Some 4])]
     ''industry'' [''score'']
   = Inr [(StrK ''hardware'', [Some 2]), (StrK ''software'', [Some (5 / 2)])]"
    by (simp add: industry_data_def grouped_mean_def group_keys_def mean_def)
  from industry_groups_in_sorted_order [OF h1 h2] h1 h2 show ?thesis
    by blast
qed

text \<open>
  The groups do not come in the order of first appearance: \<open>software\<close> is met first in
  the data and \<open>hardware\<close> second, and the result lists \<open>hardware\<close> first.
\<close>

theorem industry_groups_first_appearance_counterexample:
  "industry_data
     [(''industry'', ObjCol [Some ''software'', Some ''hardware'', Some ''software'']),
      (''score'', FloatCol [Some 1, Some 2, Some 3])]
     ''industry'' [''score'']
   = Inr [(StrK ''hardware'', [Some 2]), (StrK ''software'', [Some 2])]
   \<and> unique (present [Some ''software'', Some ''hardware'', Some ''software''])
     = [''software'', ''hardware'']"
  by (simp add: industry_data_def grouped_mean_def group_keys_def mean_def)

section \<open>Long form and back\<close>

lemma melt_keys:
  "map (\<lambda>(k, var, v). (k, var)) (melt_rows wide ms)
     = concat (map (\<lambda>var. map (\<lambda>k. (k, var)) (map fst wide)) ms)"
proof -
  have "map (\<lambda>(k, var, v). (k, var)) (melt_rows wide ms)
      = concat (map (\<lambda>(j, var). map (\<lambda>k. (k, var)) (map fst wide)) (enumerate 0 ms))"
    by (simp add: melt_rows_def map_concat comp_def case_prod_unfold)
  also have "\<dots> = concat (map ((\<lambda>var. map (\<lambda>k. (k, var)) (map fst wide)) \<circ> snd) (enumerate 0 ms))"
    by (simp add: comp_def case_prod_unfold)
  also have "\<dots> = concat (map (\<lambda>var. map (\<lambda>k. (k, var)) (map fst wide)) ms)"
    by (simp only: map_map [symmetric] map_snd_enumerate)
  finally show ?thesis .
qed

lemma distinct_pairs:
  assumes "distinct keys" and "distinct ms"
  shows "distinct (concat (map (\<lambda>var. map (\<lambda>k. (k, var)) keys) ms))"
  using assms(2)
proof (induction ms)
  case Nil
  then show ?case by simp
next
  case (Cons m ms)
  have "distinct (map (\<lambda>k. (k, m)) keys)"
    using assms(1) by (simp add: distinct_map inj_on_def)
  with Cons show ?case by auto
qed

lemma melt_member:
  assumes "(k, vs) \<in> set wide" and "j < length ms"
  shows "(k, ms ! j, vs ! j) \<in> set (melt_rows wide ms)"
proof -
  have "(j, ms ! j) \<in> set (enumerate 0 ms)"
    using assms(2) by (simp add: in_set_enumerate_eq)
  with assms(1) show ?thesis
    by (force simp: melt_rows_def)
qed

lemma melt_lookup:
  assumes "distinct (map fst wide)" and "distinct ms"
    and "(k, vs) \<in> set wide" and "j < length ms"
  shows "map_of (map (\<lambda>(k', var', v). ((k', var'), v)) (melt_rows wide ms)) (k, ms ! j) = Some (vs ! j)"
proof (rule map_of_is_SomeI)
  have "map fst (map (\<lambda>(k', var', v). ((k', var'), v)) (melt_rows wide ms))
        = map (\<lambda>(k, var, v). (k, var)) (melt_rows wide ms)"
    by (simp add: comp_def case_prod_unfold)
  then show "distinct (map fst (map (\<lambda>(k', var', v). ((k', var'), v)) (melt_rows wide ms)))"
    using distinct_pairs [OF assms(1,2)] by (simp only: melt_keys)
  have "(k, ms ! j, vs ! j) \<in> set (melt_rows wide ms)"
    using assms(3,4) by (rule melt_member)
  then show "((k, ms ! j), vs ! j) \<in> set (map (\<lambda>(k', var', v). ((k', var'), v)) (melt_rows wide ms))"
    by force
qed

lemma melt_first_keys:
  assumes "ms \<noteq> []"
  shows "\<exists>rest. map fst (melt_rows wide ms) = map fst wide @ rest \<and> set rest \<subseteq> set (map fst wide)"
proof -
  from assms obtain m ms' where ms: "ms = m # ms'" by (cases ms) auto
  have "map fst (melt_rows wide ms) = map fst (map (\<lambda>(k, var, v). (k, var)) (melt_rows wide ms))"
    by (simp add: comp_def case_prod_unfold)
  also have "\<dots> = map fst (concat (map (\<lambda>var. map (\<lambda>k. (k, var)) (map fst wide)) ms))"
    by (simp only: melt_keys)
  also have "\<dots> = map fst wide @ map fst (concat (map (\<lambda>var. map (\<lambda>k. (k, var)) (map fst wide)) ms'))"
    by (simp add: ms comp_def)
  finally have e: "map fst (melt_rows wide ms) =
      map fst wide @ map fst (concat (map (\<lambda>var. map (\<lambda>k. (k, var)) (map fst wide)) ms'))" .
  have "set (map fst (concat (map (\<lambda>var. map (\<lambda>k. (k, var)) (map fst wide)) ms'))) \<subseteq> set (map fst wide)"
    by force
  with e show ?thesis by blast
qed

lemma pivot_melt:
  assumes keys: "distinct (map fst wide)"
    and ms: "distinct ms" "ms \<noteq> []"
    and width: "\<forall>row \<in> set wide. length (snd row) = length ms"
  shows "pivot ms (melt_rows wide ms) = wide"
proof -
  define cell where "cell = (\<lambda>k var.
     case map_of (map (\<lambda>(k', var', v). ((k', var'), v)) (melt_rows wide ms)) (k, var) of
       None \<Rightarrow> None
     | Some v \<Rightarrow> v)"
  from melt_first_keys [OF ms(2), of wide] obtain rest where
    "map fst (melt_rows wide ms) = map fst wide @ rest" "set rest \<subseteq> set (map fst wide)"
    by (elim exE conjE)
  then have u: "unique (map fst (melt_rows wide ms)) = map fst wide"
    using keys by (simp only: unique_absorb)
  have cells: "map (cell k) ms = vs" if "(k, vs) \<in> set wide" for k vs
  proof (rule nth_equalityI)
    show "length (map (cell k) ms) = length vs"
      using that width by force
  next
    fix j
    assume "j < length (map (cell k) ms)"
    then have j: "j < length ms" by simp
    have "map_of (map (\<lambda>(k', var', v). ((k', var'), v)) (melt_rows wide ms)) (k, ms ! j) = Some (vs ! j)"
      using keys ms(1) that j by (rule melt_lookup)
    then have "cell k (ms ! j) = vs ! j"
      by (simp add: cell_def)
    with j show "map (cell k) ms ! j = vs ! j"
      by simp
  qed
  have "pivot ms (melt_rows wide ms) = map (\<lambda>k. (k, map (cell k) ms)) (unique (map fst (melt_rows wide ms)))"
    by (simp only: pivot_def cell_def)
  also have "\<dots> = map (\<lambda>row. (fst row, map (cell (fst row)) ms)) wide"
    by (simp only: u map_map comp_def)
  also have "\<dots> = map (\<lambda>row. row) wide"
  proof (rule map_cong [OF refl])
    fix row
    assume "row \<in> set wide"
    then have "map (cell (fst row)) ms = snd row"
      using cells [of "fst row" "snd row"] by simp
    then show "(fst row, map (cell (fst row)) ms) = row"
      by simp
  qed
  finally show ?thesis by simp
qed

lemma numeric_column_lookup:
  assumes "distinct (map fst df)" and "m \<in> set (numeric_columns df)"
  shows "\<exists>c. map_of df m = Some c \<and> is_numeric c"
proof -
  have "set (numeric_columns df) \<subseteq> set (map fst (select_dtypes df))"
    using set_remove1_subset [of stock_code "map fst (select_dtypes df)"]
    by (auto simp: numeric_columns_def Let_def)
  with assms(2) obtain c where "(m, c) \<in> set df" "is_numeric c"
    by (auto simp: select_dtypes_def)
  with assms(1) show ?thesis
    by (auto intro: map_of_is_SomeI)
qed

lemma those_metric_columns:
  assumes "\<forall>m \<in> set ms. \<exists>c. map_of df m = Some c \<and> is_numeric c"
  shows "\<exists>cs cols. those (map (map_of df) ms) = Some cs
           \<and> those (map numeric_values cs) = Some cols \<and> length cols = length ms"
  using assms
proof (induction ms)
  case Nil
  then show ?case by simp
next
  case (Cons m ms)
  then obtain cs cols where ih: "those (map (map_of df) ms) = Some cs"
      "those (map numeric_values cs) = Some cols" "length cols = length ms"
    by auto
  from Cons.prems obtain c where c: "map_of df m = Some c" "is_numeric c"
    by auto
  then obtain vs where "numeric_values c = Some vs"
    by (cases c) auto
  with ih c show ?case by simp
qed

lemma industry_column_present:
  assumes "industry_column df = Some ic"
  shows "\<exists>kc. map_of df ic = Some kc"
proof -
  from assms have "ic \<in> set (map fst df)"
    by (auto simp: industry_column_def find_Some_iff)
  then show ?thesis
    by (metis map_of_eq_None_iff not_None_eq set_map)
qed

lemma wide_rows_wellformed:
  fixes wrap :: "'k::linorder \<Rightarrow> group_key"
  assumes "inj wrap" and "wide = map (apfst wrap) (grouped_mean ks cols)"
  shows "distinct (map fst wide) \<and> (\<forall>row \<in> set wide. length (snd row) = length cols)"
proof -
  have "map fst wide = map wrap (map fst (grouped_mean ks cols))"
    using assms(2) by simp
  then have "map fst wide = map wrap (group_keys ks)"
    by (simp only: grouped_mean_keys)
  moreover have "distinct (map wrap (group_keys ks))"
    using assms(1) group_keys_distinct [of ks]
    by (simp add: distinct_map inj_on_def)
  moreover have "\<forall>row \<in> set wide. length (snd row) = length cols"
    using assms(2) by (auto simp: grouped_mean_def)
  ultimately show ?thesis by simp
qed

lemma industry_column_candidate:
  "industry_column df = Some ic \<Longrightarrow> ic \<in> set industry_candidates"
  by (auto simp: industry_column_def find_Some_iff)

lemma candidate_not_value_name: "ic \<in> set industry_candidates \<Longrightarrow> ic \<noteq> value_name"
  by (auto simp: industry_candidates_def value_name_def)

text \<open>
  Claim C5, as the code has it: for a non-empty selection of distinct metric columns
  that holds neither the grouping column nor a column labelled as the value column of
  the long form, the aggregation returns a wide table, the reshaping returns its long
  form, and pivoting the long form back gives the wide table again, every mean as it
  was.
\<close>

theorem long_form_round_trip:
  assumes "distinct (map fst df)"
    and "industry_column df = Some ic"
    and "ms \<noteq> []" and "distinct ms"
    and "set ms \<subseteq> set (numeric_columns df)"
    and "ic \<notin> set ms"
    and "value_name \<notin> set ms"
  shows "\<exists>wide long. industry_data df ic ms = Inr wide \<and> melt ic wide ms = Inr long
           \<and> pivot ms long = wide"
proof -
  from assms(2) obtain kc where kc: "map_of df ic = Some kc"
    using industry_column_present by blast
  have "\<forall>m \<in> set ms. \<exists>c. map_of df m = Some c \<and> is_numeric c"
    using assms(1,5) numeric_column_lookup by blast
  then obtain cs cols where cols: "those (map (map_of df) ms) = Some cs"
      "those (map numeric_values cs) = Some cols" "length cols = length ms"
    using those_metric_columns by blast
  define wide where "wide =
    (case kc of
       IntCol ks \<Rightarrow> map (apfst IntK) (grouped_mean (map Some ks) cols)
     | FloatCol ks \<Rightarrow> map (apfst FloatK) (grouped_mean ks cols)
     | ObjCol ks \<Rightarrow> map (apfst StrK) (grouped_mean ks cols))"
  have res: "industry_data df ic ms = Inr wide"
    using kc cols(1,2) assms(6) by (simp add: industry_data_def wide_def)
  have "ic \<noteq> value_name"
    using assms(2) by (intro candidate_not_value_name industry_column_candidate)
  with assms(7) have long: "melt ic wide ms = Inr (melt_rows wide ms)"
    by (auto simp: melt_def)
  have wf: "distinct (map fst wide) \<and> (\<forall>row \<in> set wide. length (snd row) = length cols)"
  proof (cases kc)
    case (IntCol ks)
    then have "wide = map (apfst IntK) (grouped_mean (map Some ks) cols)"
      by (simp add: wide_def)
    moreover have "inj IntK" by (simp add: inj_on_def)
    ultimately show ?thesis by (rule wide_rows_wellformed [rotated])
  next
    case (FloatCol ks)
    then have "wide = map (apfst FloatK) (grouped_mean ks cols)"
      by (simp add: wide_def)
    moreover have "inj FloatK" by (simp add: inj_on_def)
    ultimately show ?thesis by (rule wide_rows_wellformed [rotated])
  next
    case (ObjCol ks)
    then have "wide = map (apfst StrK) (grouped_mean ks cols)"
      by (simp add: wide_def)
    moreover have "inj StrK" by (simp add: inj_on_def)
    ultimately show ?thesis by (rule wide_rows_wellformed [rotated])
  qed
  then have "pivot ms (melt_rows wide ms) = wide"
    using assms(3,4) cols(3) by (intro pivot_melt) auto
  with res long show ?thesis by blast
qed

theorem long_form_round_trip_witness:
  "distinct (map fst
     [(stock_code, IntCol [300884, 2230, 688111]),
      (''industry'', ObjCol [Some ''software'', Some ''hardware'', Some ''software'']),
      (''score'', FloatCol [Some 1, Some 2, None]),
      (''staff'', IntCol [10, 20, 40])])
   \<and> industry_column
     [(stock_code, IntCol [300884, 2230, 688111]),
      (''industry'', ObjCol [Some ''software'', Some ''hardware'', Some ''software'']),
      (''score'', FloatCol [Some 1, Some 2, None]),
      (''staff'', IntCol [10, 20, 40])] = Some ''industry''
   \<and> [''staff'', ''score''] \<noteq> [] \<and> distinct [''staff'', ''score'']
   \<and> set [''staff'', ''score''] \<subseteq> set (numeric_columns
     [(stock_code, IntCol [300884, 2230, 688111]),
      (''industry'', ObjCol [Some ''software'', Some ''hardware'', Some ''software'']),
      (''score'', FloatCol [Some 1, Some 2, None]),
      (''staff'', IntCol [10, 20, 40])])
   \<and> ''industry'' \<notin> set [''staff'', ''score'']
   \<and> value_name \<notin> set [''staff'', ''score'']
   \<and> industry_data
     [(stock_code, IntCol [300884, 2230, 688111]),
      (''industry'', ObjCol [Some ''software'', Some ''hardware'', Some ''software'']),
      (''score'', FloatCol [Some 1, Some 2, None]),
      (''staff'', IntCol [10, 20, 40])] ''industry'' [''staff'', ''score'']
     = Inr [(StrK ''hardware'', [Some 20, Some 2]), (StrK ''software'', [Some 25, Some 1])]
   \<and> melt ''industry''
       [(StrK ''hardware'', [Some (20::real), Some 2]), (StrK ''software'', [Some 25, Some 1])]
       [''staff'', ''score'']
     = Inr [(StrK ''hardware'', ''staff'', Some 20), (StrK ''software'', ''staff'', Some 25),
        (StrK ''hardware'', ''score'', Some 2), (StrK ''software'', ''score'', Some 1)]
   \<and> pivot [''staff'', ''score'']
       [(StrK ''hardware'', ''staff'', Some (20::real)), (StrK ''software'', ''staff'', Some 25),
        (StrK ''hardware'', ''score'', Some 2), (StrK ''software'', ''score'', Some 1)]
     = [(StrK ''hardware'', [Some 20, Some 2]), (StrK ''software'', [Some 25, Some 1])]"
proof -
  let ?df = "[(stock_code, IntCol [300884, 2230, 688111]),
      (''industry'', ObjCol [Some ''software'', Some ''hardware'', Some ''software'']),
      (''score'', FloatCol [Some 1, Some 2, None]),
      (''staff'', IntCol [10, 20, 40])]"
  have h1: "distinct (map fst ?df)"
    by (simp add: stock_code_def)
  have h2: "industry_column ?df = Some ''industry''"
    by (simp add: industry_column_def industry_candidates_def stock_code_def)
  have h3: "[''staff'', ''score''] \<noteq> []" by simp
  have h4: "distinct [''staff'', ''score'']" by simp
  have h5: "set [''staff'', ''score''] \<subseteq> set (numeric_columns ?df)"
    by (simp add: numeric_columns_def select_dtypes_def stock_code_def)
  have h6: "''industry'' \<notin> set [''staff'', ''score'']" by simp
  have h7: "value_name \<notin> set [''staff'', ''score'']"
    by (simp add: value_name_def)
  have r: "industry_data ?df ''industry'' [''staff'', ''score'']
     = Inr [(StrK ''hardware'', [Some 20, Some 2]), (StrK ''software'', [Some 25, Some 1])]"
    by (simp add: industry_data_def grouped_mean_def group_keys_def mean_def stock_code_def)
  have m: "melt ''industry''
       [(StrK ''hardware'', [Some (20::real), Some 2]), (StrK ''software'', [Some 25, Some 1])]
       [''staff'', ''score'']
     = Inr [(StrK ''hardware'', ''staff'', Some 20), (StrK ''software'', ''staff'', Some 25),
        (StrK ''hardware'', ''score'', Some 2), (StrK ''software'', ''score'', Some 1)]"
    by (simp add: melt_def melt_rows_def value_name_def enumerate_eq_zip upt_rec)
  from long_form_round_trip [OF h1 h2 h3 h4 h5 h6 h7] r m h1 h2 h3 h4 h5 h6 h7 show ?thesis
    by (simp only: sum.inject ex_simps simp_thms)
qed

text \<open>
  Without the two exclusions there is no round trip. A grouping column of integers is
  a metric column, since lines 59-61 remove the identifier only; when it is selected,
  line 203 raises \<^verbatim>\<open>ValueError\<close> and there is no wide table. And when a selected metric
  bears the label of the value column, \<^verbatim>\<open>pd.melt\<close> raises \<^verbatim>\<open>ValueError\<close> and there
  is no long form.
\<close>

theorem long_form_round_trip_counterexample:
  "industry_column
     [(stock_code, IntCol [300884, 2230, 688111]),
      (''industry'', IntCol [7, 3, 7]),
      (''score'', FloatCol [Some 1, Some 2, None])] = Some ''industry''
   \<and> numeric_columns
     [(stock_code, IntCol [300884, 2230, 688111]),
      (''industry'', IntCol [7, 3, 7]),
      (''score'', FloatCol [Some 1, Some 2, None])] = [''industry'', ''score'']
   \<and> industry_data
     [(stock_code, IntCol [300884, 2230, 688111]),
      (''industry'', IntCol [7, 3, 7]),
      (''score'', FloatCol [Some 1, Some 2, None])] ''industry'' [''industry'', ''score'']
     = Inl ValueError
   \<and> numeric_columns
     [(stock_code, IntCol [300884, 2230]),
      (''industry'', ObjCol [Some ''software'', Some ''hardware'']),
      (value_name, FloatCol [Some 1, Some 2])] = [value_name]
   \<and> industry_data
     [(stock_code, IntCol [300884, 2230]),
      (''industry'', ObjCol [Some ''software'', Some ''hardware'']),
      (value_name, FloatCol [Some 1, Some 2])] ''industry'' [value_name]
     = Inr [(StrK ''hardware'', [Some 2]), (StrK ''software'', [Some 1])]
   \<and> melt ''industry'' [(StrK ''hardware'', [Some (2::real)]), (StrK ''software'', [Some 1])]
       [value_name]
     = Inl ValueError"
  by (simp add: industry_column_def industry_candidates_def numeric_columns_def
      select_dtypes_def industry_data_def grouped_mean_def group_keys_def mean_def melt_def
      stock_code_def value_name_def)

section \<open>Properties of the lookup\<close>

text \<open>\<open>is_substring\<close> is containment as a contiguous piece.\<close>

lemma is_substring_iff: "is_substring q s \<longleftrightarrow> (\<exists>u v. s = u @ q @ v)"
proof (induction s)
  case Nil
  then show ?case by auto
next
  case (Cons c s)
  show ?case
  proof
    assume "is_substring q (c # s)"
    then consider "take (length q) (c # s) = q" | "is_substring q s" by auto
    then show "\<exists>u v. c # s = u @ q @ v"
    proof cases
      case 1
      then have "c # s = [] @ q @ drop (length q) (c # s)"
        by (metis append_Nil append_take_drop_id)
      then show ?thesis by blast
    next
      case 2
      with Cons.IH obtain u v where "s = u @ q @ v" by blast
      then have "c # s = (c # u) @ q @ v" by simp
      then show ?thesis by blast
    qed
  next
    assume "\<exists>u v. c # s = u @ q @ v"
    then obtain u v where e: "c # s = u @ q @ v" by blast
    show "is_substring q (c # s)"
    proof (cases u)
      case Nil
      with e have "take (length q) (c # s) = q" by simp
      then show ?thesis by simp
    next
      case (Cons a u')
      with e have "s = u' @ q @ v" by simp
      with Cons.IH have "is_substring q s" by blast
      then show ?thesis by simp
    qed
  qed
qed

lemma re_compile_literal:
  "list_all (\<lambda>c. c \<notin> set re_special) q \<Longrightarrow> re_compile q = Some (map Literal q)"
  by (induction q) (auto simp: re_special_def)

text \<open>The patterns of the fragment: characters that are not special, and the dot.\<close>

lemma re_compile_fragment:
  "(\<exists>p. re_compile q = Some p) \<longleftrightarrow> list_all (\<lambda>c. c = CHR ''.'' \<or> c \<notin> set re_special) q"
  by (induction q) auto

lemma match_here_literal: "match_here (map Literal q) s = (take (length q) s = q)"
proof (induction q arbitrary: s)
  case Nil
  then show ?case by simp
next
  case (Cons a q)
  then show ?case by (cases s) auto
qed

lemma re_search_literal: "re_search (map Literal q) s = is_substring q s"
  by (induction s) (auto simp: match_here_literal)

lemma name_column_present:
  "map_of df company_name = Some col \<Longrightarrow> company_name \<in> set (map fst df)"
  by (metis map_of_eq_None_iff option.distinct(1) set_map)

text \<open>
  Claim C1, as the code has it: with an integer identifier column and a trimmed query
  that is a pattern of the fragment (characters that are not special, and \<^verbatim>\<open>.\<close>), the
  fuzzy query by identifier returns the records whose identifier, written in decimal,
  is matched somewhere by the query read as a regular expression. For a query without
  special characters these are the records whose decimal identifier contains the
  query as a substring. For the query \<open>308\<close>, the identifier 30884 matches and 300884
  does not.
\<close>

theorem identifier_fuzzy_query:
  assumes "map_of df stock_code = Some (IntCol codes)"
    and "py_strip q \<noteq> []"
    and "re_compile (py_strip q) = Some p"
  shows "matching_data df q Stock_code Fuzzy_query =
           Matches (mask_rows (map (\<lambda>code. re_search p (py_str code)) codes) df)
       \<and> (list_all (\<lambda>c. c \<notin> set re_special) (py_strip q) \<longrightarrow>
            (\<forall>s. re_search p s = is_substring (py_strip q) s))"
proof -
  have "matching_data df q Stock_code Fuzzy_query =
           Matches (mask_rows (map (\<lambda>code. re_search p (py_str code)) codes) df)"
    using assms by (simp add: matching_data_def str_contains_def comp_def)
  moreover have "re_search p s = is_substring (py_strip q) s"
    if "list_all (\<lambda>c. c \<notin> set re_special) (py_strip q)" for s
  proof -
    from that have "re_compile (py_strip q) = Some (map Literal (py_strip q))"
      by (rule re_compile_literal)
    with assms(3) have "p = map Literal (py_strip q)" by simp
    then show ?thesis by (simp only: re_search_literal)
  qed
  ultimately show ?thesis by blast
qed

theorem identifier_fuzzy_query_witness:
  "map_of [(stock_code, IntCol [30884, 300884])] stock_code = Some (IntCol [30884, 300884])
   \<and> py_strip '' 308 '' \<noteq> []
   \<and> re_compile (py_strip '' 308 '') = Some [Literal CHR ''3'', Literal CHR ''0'', Literal CHR ''8'']
   \<and> list_all (\<lambda>c. c \<notin> set re_special) (py_strip '' 308 '')
   \<and> matching_data [(stock_code, IntCol [30884, 300884])] '' 308 '' Stock_code Fuzzy_query
     = Matches [(stock_code, IntCol [30884])]
   \<and> is_substring (py_strip '' 308 '') (py_str 30884)
   \<and> \<not> is_substring (py_strip '' 308 '') (py_str 300884)"
proof -
  have h1: "map_of [(stock_code, IntCol [30884, 300884])] stock_code
      = Some (IntCol [30884, 300884])"
    by simp
  have h2: "py_strip '' 308 '' \<noteq> []"
    by (simp add: py_strip_def whitespace_def)
  have h3: "re_compile (py_strip '' 308 '')
      = Some [Literal CHR ''3'', Literal CHR ''0'', Literal CHR ''8'']"
    by (simp add: py_strip_def whitespace_def re_special_def)
  have h4: "list_all (\<lambda>c. c \<notin> set re_special) (py_strip '' 308 '')"
    by (simp add: py_strip_def whitespace_def re_special_def)
  have s: "py_strip '' 308 '' = ''308''"
    by (simp add: py_strip_def whitespace_def)
  have d: "py_str 30884 = ''30884''" "py_str 300884 = ''300884''"
    by (simp_all add: py_str_def str_nat.simps digit_char_def)
  from identifier_fuzzy_query [OF h1 h2 h3] h1 h2 h3 h4 show ?thesis
    by (simp add: s d mask_rows_def)
qed

text \<open>
  The example reversed: for \<open>308\<close> the record 30884 is returned and 300884 is not. And a
  query with a special character is no literal: \<open>3.0\<close> returns 300884, whose decimal
  text has no \<open>3.0\<close> in it.
\<close>

theorem identifier_fuzzy_query_counterexample:
  "matching_data [(stock_code, IntCol [30884, 300884])] ''308'' Stock_code Fuzzy_query
     = Matches [(stock_code, IntCol [30884])]
   \<and> matching_data [(stock_code, IntCol [30884, 300884])] ''3.0'' Stock_code Fuzzy_query
     = Matches [(stock_code, IntCol [300884])]
   \<and> \<not> is_substring ''3.0'' (py_str 300884)"
  by (simp add: matching_data_def py_strip_def whitespace_def str_contains_def
      re_special_def mask_rows_def stock_code_def py_str_def str_nat.simps digit_char_def)

text \<open>
  Claim C6: with an integer identifier column, the exact query by identifier parses the
  trimmed query with \<^verbatim>\<open>int\<close>. When that raises \<^verbatim>\<open>ValueError\<close> the outcome is the
  error message for a non-integer code; otherwise it is the frame of the records whose
  identifier equals the parsed integer, which is empty when there is none.
\<close>

theorem identifier_exact_query:
  assumes "map_of df stock_code = Some (IntCol codes)"
    and "py_strip q \<noteq> []"
  shows "matching_data df q Stock_code Exact_query =
           (case py_int (py_strip q) of
              Inl e \<Rightarrow> Error_not_integer
            | Inr n \<Rightarrow> Matches (mask_rows (map (\<lambda>code. code = n) codes) df))"
  using assms by (simp add: matching_data_def split: sum.splits)

theorem identifier_exact_query_witness:
  "map_of [(stock_code, IntCol [30884, 300884]), (''score'', FloatCol [None, Some 3])] stock_code
     = Some (IntCol [30884, 300884])
   \<and> py_strip ''abc'' \<noteq> [] \<and> py_strip ''300884'' \<noteq> [] \<and> py_strip ''99999999'' \<noteq> []
   \<and> py_int ''abc'' = Inl ValueError
   \<and> matching_data [(stock_code, IntCol [30884, 300884]), (''score'', FloatCol [None, Some 3])]
       ''abc'' Stock_code Exact_query = Error_not_integer
   \<and> matching_data [(stock_code, IntCol [30884, 300884]), (''score'', FloatCol [None, Some 3])]
       ''300884'' Stock_code Exact_query
     = Matches [(stock_code, IntCol [300884]), (''score'', FloatCol [Some 3])]
   \<and> matching_data [(stock_code, IntCol [30884, 300884]), (''score'', FloatCol [None, Some 3])]
       ''99999999'' Stock_code Exact_query
     = Matches [(stock_code, IntCol []), (''score'', FloatCol [])]"
proof -
  let ?df = "[(stock_code, IntCol [30884, 300884]), (''score'', FloatCol [None, Some 3])]"
  have h: "map_of ?df stock_code = Some (IntCol [30884, 300884])"
    by simp
  have s: "py_strip ''abc'' = ''abc''" "py_strip ''300884'' = ''300884''"
      "py_strip ''99999999'' = ''99999999''"
    by (simp_all add: py_strip_def whitespace_def)
  have a: "py_strip ''abc'' \<noteq> []" and b: "py_strip ''300884'' \<noteq> []"
    and c: "py_strip ''99999999'' \<noteq> []"
    by (simp_all add: s)
  have i: "py_int ''abc'' = Inl ValueError" "py_int ''300884'' = Inr 300884"
      "py_int ''99999999'' = Inr 99999999"
    by (simp_all add: py_int_def int_whitespace_def parse_unsigned_def digit_val_def)
  from identifier_exact_query [OF h a] identifier_exact_query [OF h b]
    identifier_exact_query [OF h c] h a b c
  show ?thesis
    by (simp add: s i mask_rows_def)
qed

text \<open>
  Claim C7, as the code has it: with a text name column and a trimmed query that is a
  pattern of the fragment, the fuzzy query by name gives no error; it returns the
  records whose name is present and is matched somewhere by the query read as a
  regular expression, and a record with a missing name is never among them. For a
  query without special characters these are the records whose name contains the
  query as a substring.
\<close>

theorem name_fuzzy_query:
  assumes "map_of df company_name = Some (ObjCol names)"
    and "py_strip q \<noteq> []"
    and "re_compile (py_strip q) = Some p"
  shows "matching_data df q Company_name Fuzzy_query =
           Matches (mask_rows
             (map (\<lambda>name. case name of None \<Rightarrow> False | Some s \<Rightarrow> re_search p s) names) df)
       \<and> (list_all (\<lambda>c. c \<notin> set re_special) (py_strip q) \<longrightarrow>
            (\<forall>s. re_search p s = is_substring (py_strip q) s))"
proof -
  have "company_name \<in> set (map fst df)"
    using assms(1) by (rule name_column_present)
  with assms have "matching_data df q Company_name Fuzzy_query =
           Matches (mask_rows
             (map (\<lambda>name. case name of None \<Rightarrow> False | Some s \<Rightarrow> re_search p s) names) df)"
    by (simp add: matching_data_def str_contains_na_false_def)
  moreover have "re_search p s = is_substring (py_strip q) s"
    if "list_all (\<lambda>c. c \<notin> set re_special) (py_strip q)" for s
  proof -
    from that have "re_compile (py_strip q) = Some (map Literal (py_strip q))"
      by (rule re_compile_literal)
    with assms(3) have "p = map Literal (py_strip q)" by simp
    then show ?thesis by (simp only: re_search_literal)
  qed
  ultimately show ?thesis by blast
qed

theorem name_fuzzy_query_witness:
  "map_of [(stock_code, IntCol [2230, 300884, 688111]),
           (company_name, ObjCol [Some ''Sun Tech'', None, Some ''Saturn''])] company_name
     = Some (ObjCol [Some ''Sun Tech'', None, Some ''Saturn''])
   \<and> py_strip ''Sa'' \<noteq> []
   \<and> re_compile (py_strip ''Sa'') = Some [Literal CHR ''S'', Literal CHR ''a'']
   \<and> list_all (\<lambda>c. c \<notin> set re_special) (py_strip ''Sa'')
   \<and> matching_data
       [(stock_code, IntCol [2230, 300884, 688111]),
        (company_name, ObjCol [Some ''Sun Tech'', None, Some ''Saturn''])]
       ''Sa'' Company_name Fuzzy_query
     = Matches [(stock_code, IntCol [688111]), (company_name, ObjCol [Some ''Saturn''])]
   \<and> \<not> is_substring (py_strip ''Sa'') ''Sun Tech''
   \<and> is_substring (py_strip ''Sa'') ''Saturn''"
proof -
  let ?df = "[(stock_code, IntCol [2230, 300884, 688111]),
              (company_name, ObjCol [Some ''Sun Tech'', None, Some ''Saturn''])]"
  have h1: "map_of ?df company_name = Some (ObjCol [Some ''Sun Tech'', None, Some ''Saturn''])"
    by (simp add: stock_code_def company_name_def)
  have s: "py_strip ''Sa'' = ''Sa''"
    by (simp add: py_strip_def whitespace_def)
  have h2: "py_strip ''Sa'' \<noteq> []"
    by (simp add: s)
  have h3: "re_compile (py_strip ''Sa'') = Some [Literal CHR ''S'', Literal CHR ''a'']"
    by (simp add: s re_special_def)
  have h4: "list_all (\<lambda>c. c \<notin> set re_special) (py_strip ''Sa'')"
    by (simp add: s re_special_def)
  from name_fuzzy_query [OF h1 h2 h3] h1 h2 h3 h4 show ?thesis
    by (simp add: s mask_rows_def)
qed

text \<open>
  The query \<open>S.n\<close> returns the record named \<open>Sun Tech\<close>, and that name does not contain
  \<open>S.n\<close> as a substring.
\<close>

theorem name_fuzzy_query_counterexample:
  "matching_data
     [(stock_code, IntCol [2230, 300884, 688111]),
      (company_name, ObjCol [Some ''Sun Tech'', None, Some ''Saturn''])]
     ''S.n'' Company_name Fuzzy_query
   = Matches [(stock_code, IntCol [2230]), (company_name, ObjCol [Some ''Sun Tech''])]
   \<and> \<not> is_substring ''S.n'' ''Sun Tech''"
  by (simp add: matching_data_def py_strip_def whitespace_def str_contains_na_false_def
      re_special_def mask_rows_def stock_code_def company_name_def)

text \<open>
  The \<^verbatim>\<open>.str\<close> accessor needs a text column: on a name column of dtype float64,
  which is what a column of empty cells is read as, the fuzzy query ends in the error
  message of \<^verbatim>\<open>except Exception\<close>.
\<close>

lemma name_fuzzy_query_float_column:
  assumes "map_of df company_name = Some (FloatCol xs)"
    and "py_strip q \<noteq> []"
  shows "matching_data df q Company_name Fuzzy_query = Error_other AttributeError"
proof -
  have "company_name \<in> set (map fst df)"
    using assms(1) by (rule name_column_present)
  with assms show ?thesis
    by (simp add: matching_data_def)
qed

text \<open>
  Claim C9: a fuzzy query reads the query text as a regular expression, by identifier
  and by name. The query \<open>3.8\<close> returns the record 30884 and the query \<open>a.c\<close> the
  record named \<open>abc\<close>, and neither text contains its query as a substring.
\<close>

theorem fuzzy_query_is_regular_expression:
  "matching_data
     [(stock_code, IntCol [30884, 300884]), (company_name, ObjCol [Some ''abc'', Some ''xyz''])]
     ''3.8'' Stock_code Fuzzy_query
   = Matches [(stock_code, IntCol [30884]), (company_name, ObjCol [Some ''abc''])]
   \<and> \<not> is_substring ''3.8'' (py_str 30884)
   \<and> matching_data
     [(stock_code, IntCol [30884, 300884]), (company_name, ObjCol [Some ''abc'', Some ''xyz''])]
     ''a.c'' Company_name Fuzzy_query
   = Matches [(stock_code, IntCol [30884]), (company_name, ObjCol [Some ''abc''])]
   \<and> \<not> is_substring ''a.c'' ''abc''"
  by (simp add: matching_data_def py_strip_def whitespace_def str_contains_def
      str_contains_na_false_def re_special_def mask_rows_def stock_code_def company_name_def
      py_str_def str_nat.simps digit_char_def)

text \<open>
  Claim C10: with a name column, the exact query by name gives no error; it returns the
  rows at which the comparison with the trimmed query is true, and in a text column
  these are the rows whose name is present and equal to it, so that no row with a
  missing name is returned.
\<close>

theorem name_exact_query_skips_missing:
  assumes "map_of df company_name = Some col"
    and "py_strip q \<noteq> []"
  shows "matching_data df q Company_name Exact_query =
           Matches (mask_rows (eq_str col (py_strip q)) df)
       \<and> (\<forall>names. col = ObjCol names \<longrightarrow>
            eq_str col (py_strip q) = map (\<lambda>name. name = Some (py_strip q)) names
            \<and> (\<forall>i < length names. names ! i = None \<longrightarrow> \<not> eq_str col (py_strip q) ! i))"
proof -
  have "company_name \<in> set (map fst df)"
    using assms(1) by (rule name_column_present)
  with assms show ?thesis
    by (simp add: matching_data_def)
qed

theorem name_exact_query_skips_missing_witness:
  "map_of [(stock_code, IntCol [2230, 300884, 688111]),
           (company_name, ObjCol [Some ''Sun Tech'', None, Some ''Saturn''])] company_name
     = Some (ObjCol [Some ''Sun Tech'', None, Some ''Saturn''])
   \<and> py_strip ''Saturn '' \<noteq> []
   \<and> matching_data
       [(stock_code, IntCol [2230, 300884, 688111]),
        (company_name, ObjCol [Some ''Sun Tech'', None, Some ''Saturn''])]
       ''Saturn '' Company_name Exact_query
     = Matches [(stock_code, IntCol [688111]), (company_name, ObjCol [Some ''Saturn''])]
   \<and> eq_str (ObjCol [Some ''Sun Tech'', None, Some ''Saturn'']) (py_strip ''Saturn '')
     = [False, False, True]"
proof -
  let ?df = "[(stock_code, IntCol [2230, 300884, 688111]),
              (company_name, ObjCol [Some ''Sun Tech'', None, Some ''Saturn''])]"
  have h1: "map_of ?df company_name = Some (ObjCol [Some ''Sun Tech'', None, Some ''Saturn''])"
    by (simp add: stock_code_def company_name_def)
  have s: "py_strip ''Saturn '' = ''Saturn''"
    by (simp add: py_strip_def whitespace_def)
  have h2: "py_strip ''Saturn '' \<noteq> []"
    by (simp add: s)
  from name_exact_query_skips_missing [OF h1 h2] h1 h2 show ?thesis
    by (simp add: s mask_rows_def)
qed

section \<open>Integers and their decimal text\<close>

text \<open>
  \<open>py_int\<close> reads back what \<open>py_str\<close> writes: the two embed \<^verbatim>\<open>int\<close> and \<^verbatim>\<open>str\<close>
  consistently on every integer.
\<close>

lemma digit_cases:
  assumes "d < (10::nat)"
  shows "d = 0 \<or> d = 1 \<or> d = 2 \<or> d = 3 \<or> d = 4 \<or> d = 5 \<or> d = 6 \<or> d = 7 \<or> d = 8 \<or> d = 9"
  using assms by arith

lemma digit_val_digit_char: "d < 10 \<Longrightarrow> digit_val (digit_char d) = Some d"
  using digit_cases [of d] by (auto simp: digit_val_def digit_char_def)

lemma digit_char_plain:
  "d < 10 \<Longrightarrow> digit_char d \<notin> set int_whitespace \<and> digit_char d \<noteq> CHR ''_''
     \<and> digit_char d \<noteq> CHR ''-'' \<and> digit_char d \<noteq> CHR ''+''"
  using digit_cases [of d] by (auto simp: digit_char_def int_whitespace_def)

lemma parse_digits_digit:
  "d < 10 \<Longrightarrow> parse_digits acc prev (digit_char d # zs) = parse_digits (10 * acc + d) False zs"
  by (simp add: digit_val_digit_char digit_char_plain)

lemma parse_digits_str_nat:
  "parse_digits acc prev (str_nat n @ zs)
     = parse_digits (acc * 10 ^ length (str_nat n) + n) False zs"
proof (induction n arbitrary: acc prev zs rule: str_nat.induct)
  case (1 n)
  show ?case
  proof (cases "n < 10")
    case True
    then have "str_nat n = [digit_char n]"
      by (simp add: str_nat.simps)
    with True show ?thesis
      by (simp add: parse_digits_digit mult.commute del: parse_digits.simps)
  next
    case False
    then have s: "str_nat n = str_nat (n div 10) @ [digit_char (n mod 10)]"
      by (subst str_nat.simps) simp
    have "parse_digits acc prev (str_nat n @ zs)
        = parse_digits acc prev (str_nat (n div 10) @ (digit_char (n mod 10) # zs))"
      by (simp add: s)
    also have "\<dots> = parse_digits (acc * 10 ^ length (str_nat (n div 10)) + n div 10) False
        (digit_char (n mod 10) # zs)"
      using False by (rule "1.IH")
    also have "\<dots> = parse_digits
        (10 * (acc * 10 ^ length (str_nat (n div 10)) + n div 10) + n mod 10) False zs"
      by (rule parse_digits_digit) simp
    also have "10 * (acc * 10 ^ length (str_nat (n div 10)) + n div 10) + n mod 10
        = acc * 10 ^ length (str_nat n) + n"
      by (simp add: s algebra_simps)
    finally show ?thesis .
  qed
qed

lemma str_nat_first: "\<exists>d cs. d < 10 \<and> str_nat n = digit_char d # cs"
proof (induction n rule: str_nat.induct)
  case (1 n)
  show ?case
  proof (cases "n < 10")
    case True
    then show ?thesis by (auto simp: str_nat.simps)
  next
    case False
    with "1.IH" obtain d cs where "d < 10" "str_nat (n div 10) = digit_char d # cs"
      by blast
    with False show ?thesis
      by (subst str_nat.simps) auto
  qed
qed

lemma str_nat_last: "last (str_nat n) = digit_char (n mod 10)"
  by (subst str_nat.simps) simp

lemma parse_unsigned_str_nat: "parse_unsigned (str_nat n) = Some n"
proof -
  obtain d cs where d: "d < 10" "str_nat n = digit_char d # cs"
    using str_nat_first by blast
  then have "parse_unsigned (str_nat n) = parse_digits d False cs"
    by (simp add: parse_unsigned_def digit_val_digit_char)
  also have "\<dots> = parse_digits 0 False (str_nat n)"
    using d by (simp add: parse_digits_digit del: parse_digits.simps)
  also have "\<dots> = Some n"
    using parse_digits_str_nat [of 0 False n "[]"] by simp
  finally show ?thesis .
qed

lemma strip_id:
  assumes "s \<noteq> []" and "hd s \<notin> W" and "last s \<notin> W"
  shows "rev (dropWhile (\<lambda>c. c \<in> W) (rev (dropWhile (\<lambda>c. c \<in> W) s))) = s"
proof -
  have "dropWhile (\<lambda>c. c \<in> W) s = s"
    using assms(1,2) by (cases s) auto
  moreover have "dropWhile (\<lambda>c. c \<in> W) (rev s) = rev s"
    using assms(1,3) by (cases "rev s") (auto simp: hd_rev [symmetric] simp del: rev_is_Nil_conv)
  ultimately show ?thesis by simp
qed

lemma py_int_py_str: "py_int (py_str i) = Inr i"
proof (cases "i < 0")
  case True
  obtain d cs where d: "d < 10" "str_nat (nat (- i)) = digit_char d # cs"
    using str_nat_first by blast
  have "last (CHR ''-'' # str_nat (nat (- i))) = last (str_nat (nat (- i)))"
    using d by simp
  then have "last (CHR ''-'' # str_nat (nat (- i))) \<notin> set int_whitespace"
    by (simp only: str_nat_last) (simp add: digit_char_plain)
  then have "rev (dropWhile (\<lambda>c. c \<in> set int_whitespace)
        (rev (dropWhile (\<lambda>c. c \<in> set int_whitespace) (CHR ''-'' # str_nat (nat (- i))))))
      = CHR ''-'' # str_nat (nat (- i))"
    by (intro strip_id) (simp_all add: int_whitespace_def)
  with True show ?thesis
    by (simp add: py_int_def py_str_def parse_unsigned_str_nat)
next
  case False
  obtain d cs where d: "d < 10" "str_nat (nat i) = digit_char d # cs"
    using str_nat_first by blast
  have "last (str_nat (nat i)) \<notin> set int_whitespace"
    by (simp add: str_nat_last digit_char_plain)
  with d have "rev (dropWhile (\<lambda>c. c \<in> set int_whitespace)
        (rev (dropWhile (\<lambda>c. c \<in> set int_whitespace) (str_nat (nat i)))))
      = str_nat (nat i)"
    by (intro strip_id) (simp_all add: digit_char_plain)
  moreover have "parse_unsigned (digit_char d # cs) = Some (nat i)"
    using parse_unsigned_str_nat [of "nat i"] d by simp
  ultimately show ?thesis
    using False d by (simp add: py_int_def py_str_def digit_char_plain)
qed

end
